theory Spec2Isabelle
  imports Main "HOL-Library.Sublist"
begin

section \<open>Python values and text\<close>

text \<open>
  Text is a \<^typ>\<open>string\<close> holding the UTF-8 bytes of the Python string. Equality and the
  substring test of Python agree with equality and the sublist test on the bytes, so a
  header that the source writes in Chinese is the list of its bytes here.

  A cell of a sheet, as \<^verbatim>\<open>pandas.read_excel\<close> hands it over: a missing entry
  (\<^verbatim>\<open>None\<close> for an absent column, \<^verbatim>\<open>NaN\<close> for a blank cell), text, a whole number
  held as an integer or as a float, or a timestamp. Floats with a fractional part, or of
  magnitude \<open>10 ^ 16\<close> and above (which Python prints with an exponent), are not part of
  the model.
\<close>

record datetime =
  year :: nat
  month :: nat
  day :: nat
  hour :: nat
  minute :: nat
  second :: nat

datatype cell = CNone | CNaN | CStr string | CInt int | CFloat int | CTime datetime

datatype py_error = ValueError | TypeError

fun show_nat :: "nat \<Rightarrow> string" where
  "show_nat n =
     (if n < 10 then [''0123456789'' ! n]
      else show_nat (n div 10) @ [''0123456789'' ! (n mod 10)])"

declare show_nat.simps [simp del]

definition show_int :: "int \<Rightarrow> string" where
  "show_int i = (if i < 0 then CHR ''-'' # show_nat (nat (- i)) else show_nat (nat i))"

definition zfill :: "nat \<Rightarrow> string \<Rightarrow> string" where
  "zfill n s = replicate (n - length s) (CHR ''0'') @ s"

text \<open>\<^verbatim>\<open>strftime("%Y-%m-%d %H:%M:%S")\<close> and \<^verbatim>\<open>date().isoformat()\<close>.\<close>

definition isoformat_date :: "datetime \<Rightarrow> string" where
  "isoformat_date d =
     zfill 4 (show_nat (year d)) @ ''-'' @ zfill 2 (show_nat (month d)) @ ''-'' @
     zfill 2 (show_nat (day d))"

definition strftime_canonical :: "datetime \<Rightarrow> string" where
  "strftime_canonical d =
     isoformat_date d @ '' '' @ zfill 2 (show_nat (hour d)) @ '':'' @
     zfill 2 (show_nat (minute d)) @ '':'' @ zfill 2 (show_nat (second d))"

text \<open>\<^verbatim>\<open>str(x)\<close>, \<^verbatim>\<open>pd.isna(x)\<close> and \<^verbatim>\<open>x or ""\<close>.\<close>

fun py_str :: "cell \<Rightarrow> string" where
  "py_str CNone = ''None''"
| "py_str CNaN = ''nan''"
| "py_str (CStr s) = s"
| "py_str (CInt i) = show_int i"
| "py_str (CFloat i) = show_int i @ ''.0''"
| "py_str (CTime d) = strftime_canonical d"

fun isna :: "cell \<Rightarrow> bool" where
  "isna CNone = True"
| "isna CNaN = True"
| "isna _ = False"

fun or_empty :: "cell \<Rightarrow> cell" where
  "or_empty CNone = CStr []"
| "or_empty (CStr s) = CStr s"
| "or_empty (CInt i) = (if i = 0 then CStr [] else CInt i)"
| "or_empty (CFloat i) = (if i = 0 then CStr [] else CFloat i)"
| "or_empty c = c"

text \<open>
  \<^verbatim>\<open>str.strip()\<close> removes the code points for which \<^verbatim>\<open>str.isspace()\<close> holds from both
  ends; these are their UTF-8 encodings.
\<close>

definition py_whitespace :: "string list" where
  "py_whitespace =
     [[CHR 0x09], [CHR 0x0A], [CHR 0x0B], [CHR 0x0C], [CHR 0x0D],
      [CHR 0x1C], [CHR 0x1D], [CHR 0x1E], [CHR 0x1F], [CHR 0x20],
      [CHR 0xC2, CHR 0x85], [CHR 0xC2, CHR 0xA0],
      [CHR 0xE1, CHR 0x9A, CHR 0x80],
      [CHR 0xE2, CHR 0x80, CHR 0x80], [CHR 0xE2, CHR 0x80, CHR 0x81],
      [CHR 0xE2, CHR 0x80, CHR 0x82], [CHR 0xE2, CHR 0x80, CHR 0x83],
      [CHR 0xE2, CHR 0x80, CHR 0x84], [CHR 0xE2, CHR 0x80, CHR 0x85],
      [CHR 0xE2, CHR 0x80, CHR 0x86], [CHR 0xE2, CHR 0x80, CHR 0x87],
      [CHR 0xE2, CHR 0x80, CHR 0x88], [CHR 0xE2, CHR 0x80, CHR 0x89],
      [CHR 0xE2, CHR 0x80, CHR 0x8A], [CHR 0xE2, CHR 0x80, CHR 0xA8],
      [CHR 0xE2, CHR 0x80, CHR 0xA9], [CHR 0xE2, CHR 0x80, CHR 0xAF],
      [CHR 0xE2, CHR 0x81, CHR 0x9F], [CHR 0xE3, CHR 0x80, CHR 0x80]]"

function strip_tokens :: "string list \<Rightarrow> string \<Rightarrow> string" where
  "strip_tokens toks s =
     (case find (\<lambda>t. t \<noteq> [] \<and> prefix t s) toks of
        None \<Rightarrow> s
      | Some t \<Rightarrow> strip_tokens toks (drop (length t) s))"
  by pat_completeness auto
termination
proof (relation "measure (\<lambda>(toks, s). length s)")
  show "wf (measure (\<lambda>(toks, s). length s))" by simp
next
  fix toks :: "string list" and s t :: string
  assume "find (\<lambda>t. t \<noteq> [] \<and> prefix t s) toks = Some t"
  then have "t \<noteq> []" and "prefix t s" by (auto simp: find_Some_iff)
  then show "((toks, drop (length t) s), (toks, s)) \<in> measure (\<lambda>(toks, s). length s)"
    by (cases s) (auto simp: prefix_def)
qed

declare strip_tokens.simps [simp del]

definition lstrip :: "string \<Rightarrow> string" where
  "lstrip s = strip_tokens py_whitespace s"

definition rstrip :: "string \<Rightarrow> string" where
  "rstrip s = rev (strip_tokens (map rev py_whitespace) (rev s))"

definition strip :: "string \<Rightarrow> string" where
  "strip s = rstrip (lstrip s)"

text \<open>
  \<^verbatim>\<open>int(x)\<close>: a whole number is itself; text is stripped and read as an optional sign and
  decimal digits, single underscores allowed between digits; anything else raises.
\<close>

definition is_digit :: "char \<Rightarrow> bool" where
  "is_digit c = (c \<in> set ''0123456789'')"

definition digit_val :: "char \<Rightarrow> int" where
  "digit_val c = of_char c - 48"

fun int_body :: "string \<Rightarrow> int \<Rightarrow> int option" where
  "int_body [] acc = Some acc"
| "int_body [c] acc = (if is_digit c then Some (10 * acc + digit_val c) else None)"
| "int_body (c # d # ds) acc =
     (if is_digit c then int_body (d # ds) (10 * acc + digit_val c)
      else if c = CHR ''_'' \<and> is_digit d then int_body ds (10 * acc + digit_val d)
      else None)"

definition int_digits :: "string \<Rightarrow> int option" where
  "int_digits s =
     (case s of [] \<Rightarrow> None
      | c # cs \<Rightarrow> if is_digit c then int_body cs (digit_val c) else None)"

definition int_of_text :: "string \<Rightarrow> py_error + int" where
  "int_of_text s =
     (let t = strip s;
          r = (case t of
                 [] \<Rightarrow> None
               | c # cs \<Rightarrow>
                   if c = CHR ''-'' then map_option uminus (int_digits cs)
                   else if c = CHR ''+'' then int_digits cs
                   else int_digits t)
      in case r of None \<Rightarrow> Inl ValueError | Some i \<Rightarrow> Inr i)"

fun py_int :: "cell \<Rightarrow> py_error + int" where
  "py_int (CInt i) = Inr i"
| "py_int (CFloat i) = Inr i"
| "py_int (CStr s) = int_of_text s"
| "py_int CNaN = Inl ValueError"
| "py_int CNone = Inl TypeError"
| "py_int (CTime d) = Inl TypeError"

text \<open>A sheet read into a frame: the header row and the data rows, cell by cell.\<close>

record frame =
  columns :: "string list"
  rows :: "cell list list"

text \<open>\<^verbatim>\<open>row.get(name)\<close> for a row of a frame with the given header.\<close>

definition row_get :: "string list \<Rightarrow> cell list \<Rightarrow> string \<Rightarrow> cell" where
  "row_get cols r name = (case map_of (zip cols r) name of None \<Rightarrow> CNone | Some c \<Rightarrow> c)"

section \<open>The procurement store\<close>

text \<open>
  The table \<^verbatim>\<open>procure_items\<close> of the procurement database: its column names, its rows
  and the counter SQLite keeps for an \<^verbatim>\<open>AUTOINCREMENT\<close> key. A row maps a column name
  to the value stored there. Values are stored as they are bound; adding a column with
  \<^verbatim>\<open>ALTER TABLE\<close> succeeds whenever the source has found the name missing.
\<close>

datatype sqlval = Null | Text string | Integer int

type_synonym sqlrow = "string \<Rightarrow> sqlval"

record table =
  tcolumns :: "string list"
  trows :: "sqlrow list"
  tseq :: int

datatype sql_error = OperationalError | OverflowError

text \<open>The three statements the import sends, with their bound parameters.\<close>

datatype stmt =
    Select_id string string
  | Update_by_id "(string \<times> sqlval) list" sqlval
  | Insert_into "(string \<times> sqlval) list"

text \<open>A Python integer is bound as a 64-bit SQLite integer or the call raises.\<close>

fun bindable :: "sqlval \<Rightarrow> bool" where
  "bindable (Integer i) = (- (2 ^ 63) \<le> i \<and> i < 2 ^ 63)"
| "bindable _ = True"

definition set_columns :: "(string \<times> sqlval) list \<Rightarrow> sqlrow \<Rightarrow> sqlrow" where
  "set_columns sets r = fold (\<lambda>(c, v) r'. r'(c := v)) sets r"

definition next_id :: "table \<Rightarrow> int" where
  "next_id t = 1 + fold max [i. Integer i \<leftarrow> map (\<lambda>r. r ''id'') (trows t)] (tseq t)"

definition sql_select_id :: "table \<Rightarrow> string \<Rightarrow> string \<Rightarrow> sql_error + sqlval option" where
  "sql_select_id t po sn =
     (if set [''id'', ''po_number'', ''item_serial_number''] \<subseteq> set (tcolumns t)
      then Inr (map_option (\<lambda>r. r ''id'')
             (find (\<lambda>r. r ''po_number'' = Text po \<and> r ''item_serial_number'' = Text sn)
                (trows t)))
      else Inl OperationalError)"

definition sql_update :: "table \<Rightarrow> (string \<times> sqlval) list \<Rightarrow> sqlval \<Rightarrow> sql_error + table" where
  "sql_update t sets rid =
     (if \<not> set (''id'' # map fst sets) \<subseteq> set (tcolumns t) then Inl OperationalError
      else if \<not> list_all bindable (map snd sets @ [rid]) then Inl OverflowError
      else Inr (t\<lparr>trows :=
                  map (\<lambda>r. if rid \<noteq> Null \<and> r ''id'' = rid then set_columns sets r else r)
                    (trows t)\<rparr>))"

definition sql_insert :: "table \<Rightarrow> (string \<times> sqlval) list \<Rightarrow> sql_error + table" where
  "sql_insert t vals =
     (if \<not> set (map fst vals) \<subseteq> set (tcolumns t) then Inl OperationalError
      else if \<not> list_all bindable (map snd vals) then Inl OverflowError
      else Inr (t\<lparr>trows :=
                  trows t @ [set_columns vals ((\<lambda>_. Null)(''id'' := Integer (next_id t)))],
                tseq := next_id t\<rparr>))"

definition add_column :: "string \<Rightarrow> table \<Rightarrow> table" where
  "add_column c t = t\<lparr>tcolumns := tcolumns t @ [c], trows := map (\<lambda>r. r(c := Null)) (trows t)\<rparr>"

section \<open>The procurement import\<close>

text \<open>
  The headers of the procurement sheet that \<^verbatim>\<open>convert_procuretrack_data\<close> reads, in the
  order of their first use in the source: document number, item serial number, product
  code, product name, transaction quantity, warehouse confirmed quantity, warehouse,
  delivery date and status.
\<close>

definition hdr_doc_no :: string where
  "hdr_doc_no = [CHR 0xE5, CHR 0x96, CHR 0xAE, CHR 0xE6, CHR 0x93, CHR 0x9A, CHR 0xE7,
     CHR 0xB7, CHR 0xA8, CHR 0xE8, CHR 0x99, CHR 0x9F]"

definition hdr_serial :: string where
  "hdr_serial = [CHR 0xE5, CHR 0xBA, CHR 0x8F, CHR 0xE8, CHR 0x99, CHR 0x9F]"

definition hdr_product_code :: string where
  "hdr_product_code = [CHR 0xE7, CHR 0x94, CHR 0xA2, CHR 0xE5, CHR 0x93, CHR 0x81, CHR 0xE4,
     CHR 0xBB, CHR 0xA3, CHR 0xE7, CHR 0xA2, CHR 0xBC]"

definition hdr_product_name :: string where
  "hdr_product_name = [CHR 0xE7, CHR 0x94, CHR 0xA2, CHR 0xE5, CHR 0x93, CHR 0x81, CHR 0xE5,
     CHR 0x90, CHR 0x8D, CHR 0xE7, CHR 0xA8, CHR 0xB1]"

definition hdr_quantity :: string where
  "hdr_quantity = [CHR 0xE4, CHR 0xBA, CHR 0xA4, CHR 0xE6, CHR 0x98, CHR 0x93, CHR 0xE6,
     CHR 0x95, CHR 0xB8, CHR 0xE9, CHR 0x87, CHR 0x8F]"

definition hdr_warehouse_qty :: string where
  "hdr_warehouse_qty = [CHR 0xE5, CHR 0x80, CHR 0x89, CHR 0xE5, CHR 0xBA, CHR 0xAB, CHR 0xE7,
     CHR 0xA2, CHR 0xBA, CHR 0xE8, CHR 0xAA, CHR 0x8D, CHR 0xE6, CHR 0x95, CHR 0xB8,
     CHR 0xE9, CHR 0x87, CHR 0x8F]"

definition hdr_warehouse :: string where
  "hdr_warehouse = [CHR 0xE5, CHR 0x80, CHR 0x89, CHR 0xE5, CHR 0xBA, CHR 0xAB]"

definition hdr_delivery_date :: string where
  "hdr_delivery_date = [CHR 0xE4, CHR 0xBA, CHR 0xA4, CHR 0xE8, CHR 0xB2, CHR 0xA8, CHR 0xE6,
     CHR 0x97, CHR 0xA5, CHR 0xE6, CHR 0x9C, CHR 0x9F]"

definition hdr_status :: string where
  "hdr_status = [CHR 0xE7, CHR 0x8B, CHR 0x80, CHR 0xE6, CHR 0x85, CHR 0x8B]"


text \<open>\<^verbatim>\<open>re.sub(r"\([^)]*\)", "", s)\<close>: every bracket that is closed is removed with its text.\<close>

function remove_parens :: "string \<Rightarrow> string" where
  "remove_parens [] = []"
| "remove_parens (c # cs) =
     (if c = CHR ''('' \<and> CHR '')'' \<in> set cs
      then remove_parens (tl (dropWhile (\<lambda>d. d \<noteq> CHR '')'') cs))
      else c # remove_parens cs)"
  by pat_completeness auto
termination
proof (relation "measure length")
  show "wf (measure length)" by simp
next
  fix c :: char and cs :: string
  have "length (tl (dropWhile (\<lambda>d. d \<noteq> CHR '')'') cs)) \<le> length cs"
    using length_dropWhile_le [of "\<lambda>d. d \<noteq> CHR '')''" cs] by simp
  then show "(tl (dropWhile (\<lambda>d. d \<noteq> CHR '')'') cs), c # cs) \<in> measure length" by simp
next
  fix c :: char and cs :: string
  show "(cs, c # cs) \<in> measure length" by simp
qed

declare remove_parens.simps [simp del]

text \<open>
  \<^verbatim>\<open>_normalize_delivery\<close>. The date parser of pandas is a parameter: it gives the
  timestamp it reads from the text, or nothing when it reads none or raises.
\<close>

definition normalize_delivery :: "(string \<Rightarrow> datetime option) \<Rightarrow> cell \<Rightarrow> string" where
  "normalize_delivery to_datetime val =
     (if isna val then []
      else let s = strip (py_str val) in
        if s = [] then []
        else let s' = strip (remove_parens s) in
          case to_datetime s' of Some dt \<Rightarrow> isoformat_date dt | None \<Rightarrow> s')"

definition quantity_of :: "cell \<Rightarrow> int" where
  "quantity_of raw =
     (if isna raw then 0 else case py_int raw of Inl e \<Rightarrow> 0 | Inr i \<Rightarrow> i)"

definition text_of :: "cell \<Rightarrow> string" where
  "text_of c = strip (py_str (or_empty c))"

definition update_sets ::
  "string \<Rightarrow> string \<Rightarrow> int \<Rightarrow> int \<Rightarrow> string \<Rightarrow> string \<Rightarrow> string \<Rightarrow> (string \<times> sqlval) list" where
  "update_sets product_code product_name quantity warehouse_qty delivery_date warehouse_name
       status_val =
     [(''product_code'', Text product_code), (''product_name'', Text product_name),
      (''quantity'', Integer quantity), (''warehouse_qty'', Integer warehouse_qty),
      (''delivery_date'', Text delivery_date), (''warehouse'', Text warehouse_name),
      (''status'', Text status_val)]"

definition insert_values ::
  "string \<Rightarrow> string \<Rightarrow> string \<Rightarrow> string \<Rightarrow> int \<Rightarrow> int \<Rightarrow> string \<Rightarrow> string \<Rightarrow> string \<Rightarrow>
     (string \<times> sqlval) list" where
  "insert_values po_number item_serial_number product_code product_name quantity warehouse_qty
       delivery_date warehouse_name status_val =
     [(''po_number'', Text po_number), (''item_serial_number'', Text item_serial_number),
      (''product_code'', Text product_code), (''product_name'', Text product_name),
      (''quantity'', Integer quantity), (''warehouse_qty'', Integer warehouse_qty),
      (''delivery_date'', Text delivery_date), (''warehouse'', Text warehouse_name),
      (''status'', Text status_val),
      (''dispatch_date'', Text []), (''arrival_date'', Text []), (''ship_info'', Text []),
      (''goods_status'', Text [])]"

datatype outcome = Skipped | Updated | Inserted | Errored

text \<open>
  The body of the loop over the sheet's rows: what became of the row, the table after it
  and the statements sent for it. A statement that raises leaves the table as it was and
  the row counts as an error.
\<close>

definition upsert_row ::
  "(string \<Rightarrow> datetime option) \<Rightarrow> (string \<Rightarrow> cell) \<Rightarrow> table \<Rightarrow> outcome \<times> table \<times> stmt list" where
  "upsert_row to_datetime get t =
     (let po_number = text_of (get hdr_doc_no);
          item_serial_number = text_of (get hdr_serial)
      in if po_number = [] \<or> item_serial_number = [] then (Skipped, t, [])
         else
           let product_code = text_of (get hdr_product_code);
               product_name = text_of (get hdr_product_name);
               quantity_raw = get hdr_quantity;
               warehouse_qty_raw = get hdr_warehouse_qty;
               warehouse_name = text_of (get hdr_warehouse);
               delivery_date = normalize_delivery to_datetime (get hdr_delivery_date);
               status_val = text_of (get hdr_status);
               quantity = quantity_of quantity_raw;
               warehouse_qty = quantity_of warehouse_qty_raw;
               sel = Select_id po_number item_serial_number
           in case sql_select_id t po_number item_serial_number of
                Inl e \<Rightarrow> (Errored, t, [sel])
              | Inr (Some rid) \<Rightarrow>
                  (let sets = update_sets product_code product_name quantity warehouse_qty
                                delivery_date warehouse_name status_val
                   in case sql_update t sets rid of
                        Inl e \<Rightarrow> (Errored, t, [sel, Update_by_id sets rid])
                      | Inr t' \<Rightarrow> (Updated, t', [sel, Update_by_id sets rid]))
              | Inr None \<Rightarrow>
                  (let vals = insert_values po_number item_serial_number product_code
                                product_name quantity warehouse_qty delivery_date
                                warehouse_name status_val
                   in case sql_insert t vals of
                        Inl e \<Rightarrow> (Errored, t, [sel, Insert_into vals])
                      | Inr t' \<Rightarrow> (Inserted, t', [sel, Insert_into vals])))"

record tally =
  inserted_count :: nat
  updated_count :: nat
  skipped_count :: nat
  errors_count :: nat

fun count :: "outcome \<Rightarrow> tally \<Rightarrow> tally" where
  "count Skipped n = n\<lparr>skipped_count := skipped_count n + 1\<rparr>"
| "count Updated n = n\<lparr>updated_count := updated_count n + 1\<rparr>"
| "count Inserted n = n\<lparr>inserted_count := inserted_count n + 1\<rparr>"
| "count Errored n = n\<lparr>errors_count := errors_count n + 1\<rparr>"

fun upsert_rows ::
  "(string \<Rightarrow> datetime option) \<Rightarrow> string list \<Rightarrow> cell list list \<Rightarrow> table \<times> tally \<times> stmt list \<Rightarrow>
     table \<times> tally \<times> stmt list" where
  "upsert_rows to_datetime cols [] st = st"
| "upsert_rows to_datetime cols (r # rs) (t, n, log) =
     (case upsert_row to_datetime (row_get cols r) t of
        (out, t', sent) \<Rightarrow> upsert_rows to_datetime cols rs (t', count out n, log @ sent))"

text \<open>\<^verbatim>\<open>CREATE TABLE IF NOT EXISTS procure_items\<close> and the check of the columns after it.\<close>

definition create_table_if_not_exists :: "table option \<Rightarrow> table" where
  "create_table_if_not_exists db =
     (case db of
        Some t \<Rightarrow> t
      | None \<Rightarrow>
          \<lparr>tcolumns = [''id'', ''po_number'', ''item_serial_number'', ''product_code'',
              ''product_name'', ''quantity'', ''warehouse_qty'', ''delivery_date'',
              ''dispatch_date'', ''warehouse'', ''arrival_date'', ''ship_info'', ''status'',
              ''goods_status''],
           trows = [], tseq = 0\<rparr>)"

definition add_if_missing :: "string set \<Rightarrow> string \<Rightarrow> table \<Rightarrow> table" where
  "add_if_missing cols c t = (if c \<notin> cols then add_column c t else t)"

definition checked_columns :: "string list" where
  "checked_columns =
     [''item_serial_number'', ''goods_status'', ''product_code'', ''warehouse_qty'',
      ''warehouse'', ''dispatch_date'']"

definition check_columns :: "table \<Rightarrow> table" where
  "check_columns t =
     (let cols = set (tcolumns t) in fold (add_if_missing cols) checked_columns t)"

datatype source_file = Missing | Unreadable | Workbook frame

record run_result =
  returned :: bool
  store :: "table option"
  report :: "tally option"
  statements :: "stmt list"

definition convert_procuretrack_data ::
  "(string \<Rightarrow> datetime option) \<Rightarrow> source_file \<Rightarrow> table option \<Rightarrow> run_result" where
  "convert_procuretrack_data to_datetime src db =
     (case src of
        Missing \<Rightarrow> \<lparr>returned = False, store = db, report = None, statements = []\<rparr>
      | Unreadable \<Rightarrow> \<lparr>returned = False, store = db, report = None, statements = []\<rparr>
      | Workbook df \<Rightarrow>
          if hdr_serial \<notin> set (columns df)
          then \<lparr>returned = False, store = db, report = None, statements = []\<rparr>
          else
            (case upsert_rows to_datetime (columns df) (rows df)
                    (check_columns (create_table_if_not_exists db),
                     \<lparr>inserted_count = 0, updated_count = 0, skipped_count = 0,
                      errors_count = 0\<rparr>, []) of
               (t, n, log) \<Rightarrow>
                 \<lparr>returned = True, store = Some t, report = Some n, statements = log\<rparr>))"

section \<open>The operators' edits\<close>

text \<open>
  The tracking service of \<^verbatim>\<open>ProcureTrack/procure.py\<close> is the other writer of the table.
  \<^verbatim>\<open>ensure_db\<close> runs whenever it opens the store; \<^verbatim>\<open>api_update\<close> writes one field of
  one record for a signed-in user of an allowed department.
\<close>

definition ensured_columns :: "string list" where
  "ensured_columns =
     [''product_code'', ''warehouse_qty'', ''warehouse'', ''dispatch_date'',
      ''item_serial_number'', ''goods_status'', ''remarks'']"

definition ensure_db :: "table option \<Rightarrow> table" where
  "ensure_db db =
     (let t = create_table_if_not_exists db; cols = set (tcolumns t)
      in fold (add_if_missing cols) ensured_columns t)"

definition allowed_fields :: "string list" where
  "allowed_fields = [''arrival_date'', ''dispatch_date'', ''ship_info'', ''goods_status'', ''remarks'']"

text \<open>\<^verbatim>\<open>STATUS_OPTIONS\<close>, the eight states of the goods an operator may choose from.\<close>

definition STATUS_OPTIONS :: "string list" where
  "STATUS_OPTIONS =
     [[CHR 0xE7, CHR 0x94, CHR 0x9F, CHR 0xE7, CHR 0x94, CHR 0xA2, CHR 0xE4, CHR 0xB8,
       CHR 0xAD],
      [CHR 0xE7, CHR 0xA9, CHR 0xBA, CHR 0xE9, CHR 0x81, CHR 0x8B, CHR 0xE9, CHR 0x81,
       CHR 0x8B, CHR 0xE9, CHR 0x80, CHR 0x81, CHR 0xE4, CHR 0xB8, CHR 0xAD],
      [CHR 0xE6, CHR 0xB5, CHR 0xB7, CHR 0xE9, CHR 0x81, CHR 0x8B, CHR 0xE9, CHR 0x81,
       CHR 0x8B, CHR 0xE9, CHR 0x80, CHR 0x81, CHR 0xE4, CHR 0xB8, CHR 0xAD],
      [CHR 0xE5, CHR 0xB7, CHR 0xB2, CHR 0xE6, CHR 0x8A, CHR 0xB5, CHR 0xE6, CHR 0xB8,
       CHR 0xAF],
      [CHR 0xE5, CHR 0xB7, CHR 0xB2, CHR 0xE5, CHR 0xA0, CHR 0xB1, CHR 0xE9, CHR 0x97,
       CHR 0x9C],
      [CHR 0xE8, CHR 0xB2, CHR 0xA8, CHR 0xE9, CHR 0x81, CHR 0x8B, CHR 0xE4, CHR 0xB8,
       CHR 0xAD],
      [CHR 0xE5, CHR 0xBB, CHR 0xB6, CHR 0xE8, CHR 0xAA, CHR 0xA4],
      [CHR 0xE7, CHR 0xB5, CHR 0x90, CHR 0xE6, CHR 0xA1, CHR 0x88]]"

text \<open>\<^verbatim>\<open>len\<close> counts code points: the bytes that do not continue a UTF-8 sequence.\<close>

definition py_len :: "string \<Rightarrow> nat" where
  "py_len s = length (filter (\<lambda>c. \<not> (128 \<le> (of_char c :: nat) \<and> (of_char c :: nat) < 192)) s)"

fun sql_text :: "sqlval \<Rightarrow> string" where
  "sql_text Null = ''None''"
| "sql_text (Text s) = s"
| "sql_text (Integer i) = show_int i"

fun sql_truthy :: "sqlval \<Rightarrow> bool" where
  "sql_truthy Null = False"
| "sql_truthy (Text s) = (s \<noteq> [])"
| "sql_truthy (Integer i) = (i \<noteq> 0)"

record payload =
  row_id :: sqlval
  field :: string
  new_value :: sqlval

definition api_update :: "bool \<Rightarrow> payload \<Rightarrow> table \<Rightarrow> table" where
  "api_update dept_allowed p t =
     (if \<not> dept_allowed then t
      else if row_id p = Null \<or> field p = [] then t
      else if field p \<notin> set allowed_fields then t
      else if field p = ''goods_status'' \<and> new_value p \<notin> Text ` set STATUS_OPTIONS then t
      else if field p = ''remarks'' \<and> sql_truthy (new_value p) \<and>
              300 < py_len (sql_text (new_value p)) then t
      else
        let t' = ensure_db (Some t)
        in if \<not> list_ex (\<lambda>r. r ''id'' = row_id p) (trows t') then t'
           else t'\<lparr>trows :=
                  map (\<lambda>r. if r ''id'' = row_id p then r(field p := new_value p) else r)
                    (trows t')\<rparr>)"

text \<open>A series of such requests, each with the caller's department checked or not.\<close>

definition operator_edits :: "(bool \<times> payload) list \<Rightarrow> table \<Rightarrow> table" where
  "operator_edits es t = fold (\<lambda>(dept_allowed, p). api_update dept_allowed p) es t"

section \<open>Notions used in the statements\<close>

text \<open>
  The two classes of fields of a procurement item, and the test whether a key is in the
  table.
\<close>

definition authoritative_columns :: "string list" where
  "authoritative_columns =
     [''product_code'', ''product_name'', ''quantity'', ''warehouse_qty'', ''delivery_date'',
      ''warehouse'', ''status'']"

definition operator_columns :: "string list" where
  "operator_columns = [''dispatch_date'', ''arrival_date'', ''ship_info'', ''goods_status'', ''remarks'']"

definition has_key :: "table \<Rightarrow> string \<Rightarrow> string \<Rightarrow> bool" where
  "has_key t po sn =
     list_ex (\<lambda>r. r ''po_number'' = Text po \<and> r ''item_serial_number'' = Text sn) (trows t)"

text \<open>
  A later state of the table carries an earlier one over when it has the fourteen created
  columns exactly if the earlier one had them, and holds every key the earlier one held.
\<close>

definition carries_over :: "table \<Rightarrow> table \<Rightarrow> bool" where
  "carries_over t t' =
     ((set (tcolumns (create_table_if_not_exists None)) \<subseteq> set (tcolumns t')) =
      (set (tcolumns (create_table_if_not_exists None)) \<subseteq> set (tcolumns t)) \<and>
      (\<forall>po sn. has_key t po sn \<longrightarrow> has_key t' po sn))"

section \<open>The batch loader\<close>

text \<open>
  A database file as the loader sees it: the rows of each table that exists, by name. A
  frame is given by its rows; \<^verbatim>\<open>to_sql\<close> is taken to succeed, with
  \<^verbatim>\<open>if_exists="replace"\<close> putting the chunk in place of the table and
  \<^verbatim>\<open>if_exists="append"\<close> adding it to the table's end (creating the table when there
  is none).
\<close>

type_synonym 'r database = "string \<Rightarrow> 'r list option"

definition to_sql :: "string \<Rightarrow> bool \<Rightarrow> 'r list \<Rightarrow> 'r database \<Rightarrow> 'r database" where
  "to_sql table_name replace chunk db =
     (if replace then db(table_name \<mapsto> chunk)
      else db(table_name \<mapsto> (case db table_name of None \<Rightarrow> chunk | Some rs \<Rightarrow> rs @ chunk)))"

text \<open>
  The loop \<^verbatim>\<open>for i in range(0, total_rows, chunk_size)\<close> from position \<open>i\<close> on. Beside
  the database it returns the chunks it has written, in order.
\<close>

function write_chunks ::
  "nat \<Rightarrow> nat \<Rightarrow> 'r list \<Rightarrow> string \<Rightarrow> 'r database \<times> 'r list list \<Rightarrow> 'r database \<times> 'r list list" where
  "write_chunks i chunk_size df table_name (db, written) =
     (if i < length df \<and> 0 < chunk_size
      then let chunk = take chunk_size (drop i df)
           in write_chunks (i + chunk_size) chunk_size df table_name
                (to_sql table_name (i = 0) chunk db, written @ [chunk])
      else (db, written))"
  by pat_completeness auto
termination
  by (relation "measure (\<lambda>(i, chunk_size, df, table_name, st). length df - i)") auto

declare write_chunks.simps [simp del]

record 'r load_result =
  raised :: "py_error option"
  database_after :: "'r database"
  chunks_written :: "'r list list"

text \<open>
  \<^verbatim>\<open>insert_data_in_chunks\<close>: the table is dropped first; a step of zero makes
  \<^verbatim>\<open>range\<close> raise after that.
\<close>

definition insert_data_in_chunks ::
  "'r list \<Rightarrow> 'r database \<Rightarrow> string \<Rightarrow> nat \<Rightarrow> 'r load_result" where
  "insert_data_in_chunks df conn table_name chunk_size =
     (let dropped = conn(table_name := None)
      in if chunk_size = 0
         then \<lparr>raised = Some ValueError, database_after = dropped, chunks_written = []\<rparr>
         else case write_chunks 0 chunk_size df table_name (dropped, []) of
                (db, written) \<Rightarrow>
                  \<lparr>raised = None, database_after = db, chunks_written = written\<rparr>)"


section \<open>The date normalizer\<close>

text \<open>
  A column of a frame with its pandas type: timestamps (\<^verbatim>\<open>NaT\<close> is \<open>None\<close>), 64-bit
  integers, floats holding whole numbers (\<^verbatim>\<open>NaN\<close> is \<open>None\<close>), or objects.
\<close>

datatype series =
    Datetime64 "datetime option list"
  | Int64 "int list"
  | Float64 "int option list"
  | Object "cell list"

text \<open>The elements of a column as Python values, \<^verbatim>\<open>notna().sum()\<close> and \<^verbatim>\<open>astype(str)\<close>.\<close>

fun values_of :: "series \<Rightarrow> cell list" where
  "values_of (Datetime64 ds) = map (\<lambda>d. case d of None \<Rightarrow> CNaN | Some t \<Rightarrow> CTime t) ds"
| "values_of (Int64 ns) = map CInt ns"
| "values_of (Float64 fs) = map (\<lambda>f. case f of None \<Rightarrow> CNaN | Some n \<Rightarrow> CFloat n) fs"
| "values_of (Object cs) = cs"

definition non_null_count :: "series \<Rightarrow> nat" where
  "non_null_count s = length (filter (\<lambda>c. \<not> isna c) (values_of s))"

fun astype_str :: "series \<Rightarrow> cell list" where
  "astype_str (Datetime64 ds) =
     map (\<lambda>d. case d of None \<Rightarrow> CStr ''NaT'' | Some t \<Rightarrow> CStr (strftime_canonical t)) ds"
| "astype_str s = map (\<lambda>c. CStr (py_str c)) (values_of s)"

text \<open>\<^verbatim>\<open>dt.strftime("%Y-%m-%d %H:%M:%S")\<close>: a missing timestamp stays missing.\<close>

definition strftime_column :: "datetime option list \<Rightarrow> cell list" where
  "strftime_column ds =
     map (\<lambda>d. case d of None \<Rightarrow> CNaN | Some t \<Rightarrow> CStr (strftime_canonical t)) ds"

text \<open>
  The calendar date of a day counted from 1970-01-01, and
  \<^verbatim>\<open>pd.to_datetime(v, origin="1899-12-30", unit="D", errors="coerce")\<close>: day 25569 of
  the sheet is 1970-01-01, and a day outside the range of a pandas timestamp (1677-09-22
  to 2262-04-11) is coerced to \<^verbatim>\<open>NaT\<close>.
\<close>

definition date_of_days :: "int \<Rightarrow> datetime" where
  "date_of_days n =
     (let z = n + 719468;
          era = z div 146097;
          doe = z - era * 146097;
          yoe = (doe - doe div 1460 + doe div 36524 - doe div 146096) div 365;
          doy = doe - (365 * yoe + yoe div 4 - yoe div 100);
          mp = (5 * doy + 2) div 153;
          d = doy - (153 * mp + 2) div 5 + 1;
          m = (if mp < 10 then mp + 3 else mp - 9);
          y = yoe + era * 400 + (if m \<le> 2 then 1 else 0)
      in \<lparr>year = nat y, month = nat m, day = nat d, hour = 0, minute = 0, second = 0\<rparr>)"

definition excel_serial :: "int \<Rightarrow> datetime option" where
  "excel_serial v =
     (if - 81182 \<le> v \<and> v \<le> 132320 then Some (date_of_days (v - 25569)) else None)"

text \<open>
  The step for a numeric column (source lines 181 to 203): when some value lies in
  \<open>[1, 100000]\<close> the whole column is converted. It gives the new column, or nothing when
  the column is left for the later steps.
\<close>

definition excel_step :: "int option list \<Rightarrow> cell list option" where
  "excel_step numeric_data =
     (let valid_range =
            map (\<lambda>v. case v of None \<Rightarrow> False | Some n \<Rightarrow> 1 \<le> n \<and> n \<le> 100000) numeric_data
      in if list_ex (\<lambda>b. b) valid_range
         then let converted = map (\<lambda>v. Option.bind v excel_serial) numeric_data
              in if 0 < length (filter (\<lambda>d. d \<noteq> None) converted)
                 then Some (strftime_column converted) else None
         else None)"

text \<open>
  \<^verbatim>\<open>clean_date_string\<close>: the weekday in brackets, one of seven Chinese numerals, goes with
  the white space around it.
\<close>

definition weekday_marks :: "string list" where
  "weekday_marks =
     [[CHR ''('', CHR 0xE4, CHR 0xB8, CHR 0x80, CHR '')''],
      [CHR ''('', CHR 0xE4, CHR 0xBA, CHR 0x8C, CHR '')''],
      [CHR ''('', CHR 0xE4, CHR 0xB8, CHR 0x89, CHR '')''],
      [CHR ''('', CHR 0xE5, CHR 0x9B, CHR 0x9B, CHR '')''],
      [CHR ''('', CHR 0xE4, CHR 0xBA, CHR 0x94, CHR '')''],
      [CHR ''('', CHR 0xE5, CHR 0x85, CHR 0xAD, CHR '')''],
      [CHR ''('', CHR 0xE6, CHR 0x97, CHR 0xA5, CHR '')'']]"

lemma length_strip_tokens: "length (strip_tokens toks s) \<le> length s"
proof (induction toks s rule: strip_tokens.induct)
  case (1 toks s)
  show ?case
  proof (cases "find (\<lambda>t. t \<noteq> [] \<and> prefix t s) toks")
    case None
    then show ?thesis by (simp add: strip_tokens.simps)
  next
    case (Some t)
    with "1.IH" [OF Some] show ?thesis
      by (subst strip_tokens.simps) simp
  qed
qed

function strip_weekdays :: "string \<Rightarrow> string" where
  "strip_weekdays s =
     (case s of
        [] \<Rightarrow> []
      | c # cs \<Rightarrow>
          (case find (\<lambda>m. prefix m (lstrip s)) weekday_marks of
             Some m \<Rightarrow> strip_weekdays (lstrip (drop (length m) (lstrip s)))
           | None \<Rightarrow> c # strip_weekdays cs))"
  by pat_completeness auto
termination
proof (relation "measure length")
  show "wf (measure length)" by simp
next
  fix s :: string and c cs m
  assume s: "s = c # cs"
    and "find (\<lambda>m. prefix m (lstrip s)) weekday_marks = Some m"
  then have m: "m \<in> set weekday_marks" and p: "prefix m (lstrip s)"
    by (auto simp: find_Some_iff)
  from m have "0 < length m" by (auto simp: weekday_marks_def)
  moreover from p have "length m \<le> length (lstrip s)" by (rule prefix_length_le)
  moreover have "length (lstrip s) \<le> length s"
    unfolding lstrip_def by (rule length_strip_tokens)
  moreover have "length (lstrip (drop (length m) (lstrip s))) \<le> length (lstrip s) - length m"
    using length_strip_tokens [of py_whitespace "drop (length m) (lstrip s)"]
    by (simp add: lstrip_def)
  ultimately show "(lstrip (drop (length m) (lstrip s)), s) \<in> measure length"
    by (simp only: in_measure)
next
  fix s :: string and c cs
  assume "s = c # cs"
  then show "(cs, s) \<in> measure length" by simp
qed

declare strip_weekdays.simps [simp del]

fun clean_date_string :: "cell \<Rightarrow> cell" where
  "clean_date_string c =
     (if isna c \<or> c = CStr [] then c else CStr (strip (strip_weekdays (py_str c))))"

text \<open>
  The seven patterns of the second step, in the order they are tried. Reading a value with
  a pattern is the work of pandas and a parameter here: \<open>strptime fmt c\<close> is the
  timestamp that \<^verbatim>\<open>pd.to_datetime(..., format=fmt, errors="coerce")\<close> finds in \<open>c\<close>, if
  any. The first pattern that reads at least one value of the column decides the whole
  column.
\<close>

definition formats_to_try :: "string list" where
  "formats_to_try =
     [''%Y/%m/%d'', ''%Y-%m-%d'', ''%Y/%m/%d %H:%M:%S'', ''%Y-%m-%d %H:%M:%S'', ''%m/%d/%Y'',
      ''%d/%m/%Y'', ''%Y%m%d'']"

fun try_formats ::
  "(string \<Rightarrow> cell \<Rightarrow> datetime option) \<Rightarrow> string list \<Rightarrow> cell list \<Rightarrow> cell list option" where
  "try_formats strptime [] cleaned_data = None"
| "try_formats strptime (fmt # fmts) cleaned_data =
     (let test_conversion = map (strptime fmt) cleaned_data
      in if 0 < length (filter (\<lambda>d. d \<noteq> None) test_conversion)
         then Some (strftime_column test_conversion)
         else try_formats strptime fmts cleaned_data)"

text \<open>
  The third step, \<^verbatim>\<open>pd.to_datetime(cleaned_data, errors="coerce")\<close> with no pattern:
  \<open>guess col c\<close> is the timestamp pandas finds in the value \<open>c\<close> of the column \<open>col\<close>.
\<close>

definition default_step :: "(cell list \<Rightarrow> cell \<Rightarrow> datetime option) \<Rightarrow> cell list \<Rightarrow> cell list option" where
  "default_step guess cleaned_data =
     (let test_conversion = map (guess cleaned_data) cleaned_data
      in if 0 < length (filter (\<lambda>d. d \<noteq> None) test_conversion)
         then Some (strftime_column test_conversion) else None)"

text \<open>
  What \<^verbatim>\<open>convert_datetime_optimized\<close> does to one column, and the loop over the columns
  it is asked to convert.
\<close>

definition convert_column ::
  "(string \<Rightarrow> cell \<Rightarrow> datetime option) \<Rightarrow> (cell list \<Rightarrow> cell \<Rightarrow> datetime option) \<Rightarrow> series \<Rightarrow> series" where
  "convert_column strptime guess original_data =
     (if non_null_count original_data = 0 then original_data
      else
        let first_step =
              (case original_data of
                 Datetime64 ds \<Rightarrow> Some (strftime_column ds)
               | Int64 ns \<Rightarrow> excel_step (map Some ns)
               | Float64 fs \<Rightarrow> excel_step fs
               | Object cs \<Rightarrow> None);
            cleaned_data = map clean_date_string (values_of original_data);
            second_step =
              (case first_step of
                 Some col \<Rightarrow> Some col
               | None \<Rightarrow> try_formats strptime formats_to_try cleaned_data);
            third_step =
              (case second_step of
                 Some col \<Rightarrow> Some col
               | None \<Rightarrow> default_step guess cleaned_data)
        in case third_step of
             Some col \<Rightarrow> Object col
           | None \<Rightarrow> Object (astype_str original_data))"

type_synonym typed_frame = "(string \<times> series) list"

definition convert_datetime_optimized ::
  "(string \<Rightarrow> cell \<Rightarrow> datetime option) \<Rightarrow> (cell list \<Rightarrow> cell \<Rightarrow> datetime option) \<Rightarrow>
     typed_frame \<Rightarrow> string list \<Rightarrow> typed_frame" where
  "convert_datetime_optimized strptime guess df date_columns =
     fold (\<lambda>col df'.
             map (\<lambda>(name, s). if name = col then (name, convert_column strptime guess s)
                               else (name, s)) df')
       date_columns df"

text \<open>
  A converted column: every value is a timestamp in the canonical form or is missing.
\<close>

definition dates_or_missing :: "cell list \<Rightarrow> bool" where
  "dates_or_missing out \<longleftrightarrow>
     (\<forall>j<length out. out ! j = CNaN \<or> (\<exists>t. out ! j = CStr (strftime_canonical t)))"


section \<open>Concrete inputs\<close>


definition sheet_po1 :: frame where
  "sheet_po1 =
     \<lparr>columns = [hdr_doc_no, hdr_serial, hdr_quantity],
      rows = [[CStr ''PO1'', CInt 1, CInt 12]]\<rparr>"

definition sheet_without_serial :: frame where
  "sheet_without_serial = \<lparr>columns = [hdr_doc_no, hdr_quantity], rows = [[CStr ''PO1'', CInt 12]]\<rparr>"



text \<open>An operator of an allowed department writes a remark on the item with id 1.\<close>

definition remark_edit :: "(bool \<times> payload) list" where
  "remark_edit =
     [(True, \<lparr>row_id = Integer 1, field = ''remarks'', new_value = Text ''call vendor''\<rparr>)]"

text \<open>
  A reader of dates that knows one date in the first pattern and nothing else, as pandas
  reads these two values: \<^verbatim>\<open>2020/01/16\<close> is a date in \<^verbatim>\<open>%Y/%m/%d\<close>, and
  \<^verbatim>\<open>hello\<close> is a date in no pattern.
\<close>

definition reads_one_date :: "string \<Rightarrow> cell \<Rightarrow> datetime option" where
  "reads_one_date fmt c =
     (if fmt = ''%Y/%m/%d'' \<and> c = CStr ''2020/01/16''
      then Some \<lparr>year = 2020, month = 1, day = 16, hour = 0, minute = 0, second = 0\<rparr>
      else None)"

definition reads_nothing :: "cell list \<Rightarrow> cell \<Rightarrow> datetime option" where
  "reads_nothing col c = None"

section \<open>The procurement import: what a run may change\<close>

lemma set_columns_other: "c \<notin> fst ` set sets \<Longrightarrow> set_columns sets r c = r c"
  unfolding set_columns_def
  by (induction sets arbitrary: r) (auto split: prod.splits)

lemma update_sets_columns:
  "map fst (update_sets a b c d e f g) = authoritative_columns"
  by (simp add: update_sets_def authoritative_columns_def)

lemma operator_not_authoritative:
  "c \<in> set operator_columns \<Longrightarrow> c \<notin> set authoritative_columns"
  by (auto simp: operator_columns_def authoritative_columns_def)

lemma sql_update_columns: "sql_update t sets rid = Inr t' \<Longrightarrow> tcolumns t' = tcolumns t"
  by (auto simp: sql_update_def split: if_splits)

lemma sql_update_length:
  "sql_update t sets rid = Inr t' \<Longrightarrow> length (trows t') = length (trows t)"
  by (auto simp: sql_update_def split: if_splits)

lemma sql_update_frame:
  "sql_update t sets rid = Inr t' \<Longrightarrow> i < length (trows t) \<Longrightarrow> c \<notin> fst ` set sets \<Longrightarrow>
     (trows t' ! i) c = (trows t ! i) c"
  by (auto simp: sql_update_def set_columns_other split: if_splits)

lemma sql_insert_columns: "sql_insert t vals = Inr t' \<Longrightarrow> tcolumns t' = tcolumns t"
  by (auto simp: sql_insert_def split: if_splits)

lemma sql_insert_rows:
  "sql_insert t vals = Inr t' \<Longrightarrow>
     trows t' = trows t @ [set_columns vals ((\<lambda>_. Null)(''id'' := Integer (next_id t)))]"
  by (auto simp: sql_insert_def split: if_splits)

lemma upsert_row_columns: "upsert_row d g t = (out, t', sent) \<Longrightarrow> tcolumns t' = tcolumns t"
  by (auto simp: upsert_row_def Let_def sql_update_columns sql_insert_columns
      split: if_splits sum.splits option.splits)

lemma upsert_row_length:
  "upsert_row d g t = (out, t', sent) \<Longrightarrow>
     length (trows t') = length (trows t) + (if out = Inserted then 1 else 0)"
  by (auto simp: upsert_row_def Let_def sql_update_length sql_insert_rows
      split: if_splits sum.splits option.splits)

lemma upsert_row_frame:
  assumes "upsert_row d g t = (out, t', sent)" and "i < length (trows t)"
    and "c \<notin> set authoritative_columns"
  shows "(trows t' ! i) c = (trows t ! i) c"
proof (cases out)
  case Updated
  with assms(1) obtain sets rid where upd: "sql_update t sets rid = Inr t'"
    and sets: "map fst sets = authoritative_columns"
    by (auto simp: upsert_row_def Let_def update_sets_columns
        split: if_splits sum.splits option.splits)
  from sets assms(3) have "c \<notin> fst ` set sets" by (simp flip: set_map)
  from sql_update_frame [OF upd assms(2) this] show ?thesis .
next
  case Inserted
  with assms(1) obtain vals where "sql_insert t vals = Inr t'"
    by (auto simp: upsert_row_def Let_def split: if_splits sum.splits option.splits)
  then show ?thesis using assms(2) by (simp add: sql_insert_rows nth_append)
next
  case Skipped
  with assms(1) have "t' = t"
    by (auto simp: upsert_row_def Let_def split: if_splits sum.splits option.splits)
  then show ?thesis by simp
next
  case Errored
  with assms(1) have "t' = t"
    by (auto simp: upsert_row_def Let_def split: if_splits sum.splits option.splits)
  then show ?thesis by simp
qed


lemma upsert_row_existing_key:
  assumes "has_key t (text_of (g hdr_doc_no)) (text_of (g hdr_serial))"
  shows "fst (upsert_row d g t) \<noteq> Inserted \<and>
         length (trows (fst (snd (upsert_row d g t)))) = length (trows t)"
proof -
  have "find (\<lambda>r. r ''po_number'' = Text (text_of (g hdr_doc_no)) \<and>
                 r ''item_serial_number'' = Text (text_of (g hdr_serial))) (trows t) \<noteq> None"
    using assms by (auto simp: has_key_def find_None_iff list_ex_iff)
  then have ne: "fst (upsert_row d g t) \<noteq> Inserted"
    by (auto simp: upsert_row_def Let_def sql_select_id_def
        split: if_splits sum.splits option.splits)
  obtain out t' sent where step: "upsert_row d g t = (out, t', sent)"
    by (cases "upsert_row d g t") auto
  show ?thesis
    using ne upsert_row_length [OF step] by (simp add: step)
qed

text \<open>The loop over the rows inherits the frame of its body.\<close>

lemma upsert_rows_frame:
  "upsert_rows d cols rs (t, n, log) = (t', n', log') \<Longrightarrow>
     tcolumns t' = tcolumns t \<and> length (trows t) \<le> length (trows t') \<and>
     (\<forall>i<length (trows t). \<forall>c. c \<notin> set authoritative_columns \<longrightarrow>
        (trows t' ! i) c = (trows t ! i) c)"
proof (induction rs arbitrary: t n log)
  case Nil
  then show ?case by simp
next
  case (Cons r rs)
  obtain out t1 sent where step: "upsert_row d (row_get cols r) t = (out, t1, sent)"
    by (cases "upsert_row d (row_get cols r) t") auto
  with Cons.prems
  have rest: "upsert_rows d cols rs (t1, count out n, log @ sent) = (t', n', log')"
    by simp
  note ih = Cons.IH [OF rest]
  have len: "length (trows t) \<le> length (trows t1)"
    using upsert_row_length [OF step] by simp
  show ?case
  proof (intro conjI allI impI)
    show "tcolumns t' = tcolumns t"
      using ih upsert_row_columns [OF step] by simp
    show "length (trows t) \<le> length (trows t')"
      using ih len by simp
  next
    fix i c
    assume i: "i < length (trows t)" and c: "c \<notin> set authoritative_columns"
    have "(trows t' ! i) c = (trows t1 ! i) c"
      using ih i len c by simp
    also have "\<dots> = (trows t ! i) c"
      using upsert_row_frame [OF step i c] .
    finally show "(trows t' ! i) c = (trows t ! i) c" .
  qed
qed


text \<open>Adding the missing columns keeps every row and every value of a column already there.\<close>

lemma fold_add_if_missing_columns:
  "tcolumns (fold (add_if_missing cols) cs t) = tcolumns t @ filter (\<lambda>c. c \<notin> cols) cs"
  by (induction cs arbitrary: t) (auto simp: add_if_missing_def add_column_def)

lemma fold_add_if_missing_length:
  "length (trows (fold (add_if_missing cols) cs t)) = length (trows t)"
  by (induction cs arbitrary: t) (auto simp: add_if_missing_def add_column_def)




lemma convert_procuretrack_data_run:
  assumes "hdr_serial \<in> set (columns df)"
  obtains t' n' log' where
    "upsert_rows d (columns df) (rows df)
       (check_columns (create_table_if_not_exists db),
        \<lparr>inserted_count = 0, updated_count = 0, skipped_count = 0, errors_count = 0\<rparr>, [])
      = (t', n', log')"
    and "convert_procuretrack_data d (Workbook df) db =
           \<lparr>returned = True, store = Some t', report = Some n', statements = log'\<rparr>"
proof -
  obtain t' n' log' where run:
    "upsert_rows d (columns df) (rows df)
       (check_columns (create_table_if_not_exists db),
        \<lparr>inserted_count = 0, updated_count = 0, skipped_count = 0, errors_count = 0\<rparr>, [])
      = (t', n', log')"
    using prod_cases3 by blast
  then have "convert_procuretrack_data d (Workbook df) db =
           \<lparr>returned = True, store = Some t', report = Some n', statements = log'\<rparr>"
    using assms by (simp add: convert_procuretrack_data_def)
  with run that show thesis by blast
qed

lemma convert_procuretrack_data_refused:
  assumes "\<not> (\<exists>df. src = Workbook df \<and> hdr_serial \<in> set (columns df))"
  shows "convert_procuretrack_data d src db =
           \<lparr>returned = False, store = db, report = None, statements = []\<rparr>"
  using assms by (auto simp: convert_procuretrack_data_def split: source_file.splits)



text \<open>
  Claim C10. When the sheet is read but has no column for the item serial number, the
  import returns \<^verbatim>\<open>False\<close> at once: the store is the one it was given (a store that did
  not exist is not created), no statement is sent and no tally is reported.
\<close>

theorem C10_missing_serial_column_aborts:
  "hdr_serial \<notin> set (columns df) \<Longrightarrow>
     convert_procuretrack_data to_datetime (Workbook df) db =
       \<lparr>returned = False, store = db, report = None, statements = []\<rparr>"
  by (simp add: convert_procuretrack_data_def)

theorem C10_missing_serial_column_aborts_witness:
  "hdr_serial \<notin> set (columns sheet_without_serial) \<and>
   convert_procuretrack_data (\<lambda>_. None) (Workbook sheet_without_serial) None =
     \<lparr>returned = False, store = None, report = None, statements = []\<rparr>"
proof -
  have h: "hdr_serial \<notin> set (columns sheet_without_serial)"
    by (simp add: sheet_without_serial_def hdr_serial_def hdr_doc_no_def hdr_quantity_def)
  from h C10_missing_serial_column_aborts [OF h, of "\<lambda>_. None" None]
  show ?thesis by simp
qed

section \<open>The procurement import: a row with a new key\<close>

lemma not_has_key_find:
  "\<not> has_key t po sn \<Longrightarrow>
     find (\<lambda>r. r ''po_number'' = Text po \<and> r ''item_serial_number'' = Text sn) (trows t) = None"
  by (auto simp: has_key_def find_None_iff list_ex_iff)

lemma created_columns:
  "tcolumns (create_table_if_not_exists None) =
     [''id'', ''po_number'', ''item_serial_number'', ''product_code'',
      ''product_name'', ''quantity'', ''warehouse_qty'', ''delivery_date'',
      ''dispatch_date'', ''warehouse'', ''arrival_date'', ''ship_info'', ''status'',
      ''goods_status'']"
  by (simp add: create_table_if_not_exists_def)

lemma insert_values_columns:
  "set (''id'' # map fst (insert_values a b c d e f g h i)) =
     set (tcolumns (create_table_if_not_exists None))"
  by (auto simp: insert_values_def created_columns)

lemma upsert_row_inserts:
  assumes key: "text_of (get hdr_doc_no) \<noteq> []" "text_of (get hdr_serial) \<noteq> []"
    and new: "\<not> has_key t (text_of (get hdr_doc_no)) (text_of (get hdr_serial))"
    and cols: "set (tcolumns (create_table_if_not_exists None)) \<subseteq> set (tcolumns t)"
    and fits: "bindable (Integer (quantity_of (get hdr_quantity)))"
              "bindable (Integer (quantity_of (get hdr_warehouse_qty)))"
  shows "\<exists>t' sent r.
           upsert_row to_datetime get t = (Inserted, t', sent) \<and>
           trows t' = trows t @ [r] \<and>
           r ''po_number'' = Text (text_of (get hdr_doc_no)) \<and>
           r ''item_serial_number'' = Text (text_of (get hdr_serial)) \<and>
           r ''product_code'' = Text (text_of (get hdr_product_code)) \<and>
           r ''product_name'' = Text (text_of (get hdr_product_name)) \<and>
           r ''quantity'' = Integer (quantity_of (get hdr_quantity)) \<and>
           r ''warehouse_qty'' = Integer (quantity_of (get hdr_warehouse_qty)) \<and>
           r ''delivery_date'' = Text (normalize_delivery to_datetime (get hdr_delivery_date)) \<and>
           r ''warehouse'' = Text (text_of (get hdr_warehouse)) \<and>
           r ''status'' = Text (text_of (get hdr_status)) \<and>
           r ''dispatch_date'' = Text [] \<and> r ''arrival_date'' = Text [] \<and>
           r ''ship_info'' = Text [] \<and> r ''goods_status'' = Text []"
proof -
  define vals where "vals = insert_values (text_of (get hdr_doc_no)) (text_of (get hdr_serial))
      (text_of (get hdr_product_code)) (text_of (get hdr_product_name))
      (quantity_of (get hdr_quantity)) (quantity_of (get hdr_warehouse_qty))
      (normalize_delivery to_datetime (get hdr_delivery_date)) (text_of (get hdr_warehouse))
      (text_of (get hdr_status))"
  define r where "r = set_columns vals ((\<lambda>_. Null)(''id'' := Integer (next_id t)))"
  have sel: "sql_select_id t (text_of (get hdr_doc_no)) (text_of (get hdr_serial)) = Inr None"
    using cols not_has_key_find [OF new] by (simp add: sql_select_id_def created_columns)
  have "set (''id'' # map fst vals) \<subseteq> set (tcolumns t)"
    using cols unfolding vals_def insert_values_columns .
  then have c: "set (map fst vals) \<subseteq> set (tcolumns t)" by simp
  have b: "list_all bindable (map snd vals)"
    using fits by (simp add: vals_def insert_values_def)
  have ins: "sql_insert t vals = Inr (t\<lparr>trows := trows t @ [r], tseq := next_id t\<rparr>)"
    using c b by (simp add: sql_insert_def r_def)
  have step: "upsert_row to_datetime get t =
      (Inserted, t\<lparr>trows := trows t @ [r], tseq := next_id t\<rparr>,
       [Select_id (text_of (get hdr_doc_no)) (text_of (get hdr_serial)), Insert_into vals])"
    using key sel ins by (simp add: upsert_row_def Let_def vals_def)
  have fields:
    "r ''po_number'' = Text (text_of (get hdr_doc_no))"
    "r ''item_serial_number'' = Text (text_of (get hdr_serial))"
    "r ''product_code'' = Text (text_of (get hdr_product_code))"
    "r ''product_name'' = Text (text_of (get hdr_product_name))"
    "r ''quantity'' = Integer (quantity_of (get hdr_quantity))"
    "r ''warehouse_qty'' = Integer (quantity_of (get hdr_warehouse_qty))"
    "r ''delivery_date'' = Text (normalize_delivery to_datetime (get hdr_delivery_date))"
    "r ''warehouse'' = Text (text_of (get hdr_warehouse))"
    "r ''status'' = Text (text_of (get hdr_status))"
    "r ''dispatch_date'' = Text []" "r ''arrival_date'' = Text []"
    "r ''ship_info'' = Text []" "r ''goods_status'' = Text []"
    by (simp_all add: r_def vals_def insert_values_def set_columns_def)
  show ?thesis
    using step fields by simp
qed





section \<open>The procurement import: the columns it adds\<close>




section \<open>The procurement import: a second run\<close>

lemma upsert_row_inserted_iff:
  "fst (upsert_row d g t) = Inserted \<longleftrightarrow>
     text_of (g hdr_doc_no) \<noteq> [] \<and> text_of (g hdr_serial) \<noteq> [] \<and>
     \<not> has_key t (text_of (g hdr_doc_no)) (text_of (g hdr_serial)) \<and>
     set (tcolumns (create_table_if_not_exists None)) \<subseteq> set (tcolumns t) \<and>
     bindable (Integer (quantity_of (g hdr_quantity))) \<and>
     bindable (Integer (quantity_of (g hdr_warehouse_qty)))"
  (is "?L \<longleftrightarrow> ?R")
proof
  assume ?R
  then show ?L
    using upsert_row_inserts [of g t d] by auto
next
  assume l: ?L
  let ?po = "text_of (g hdr_doc_no)" and ?sn = "text_of (g hdr_serial)"
  from l have key: "?po \<noteq> []" "?sn \<noteq> []"
    by (auto simp: upsert_row_def Let_def split: if_splits)
  from l key have sel: "sql_select_id t ?po ?sn = Inr None"
    by (auto simp: upsert_row_def Let_def split: if_splits sum.splits option.splits)
  then have kc: "set [''id'', ''po_number'', ''item_serial_number''] \<subseteq> set (tcolumns t)"
    and nf: "find (\<lambda>r. r ''po_number'' = Text ?po \<and> r ''item_serial_number'' = Text ?sn) (trows t) = None"
    by (auto simp: sql_select_id_def split: if_splits)
  from nf have new: "\<not> has_key t ?po ?sn"
    by (auto simp: has_key_def find_None_iff list_ex_iff)
  from l key sel obtain vals t' where vals: "vals = insert_values ?po ?sn
      (text_of (g hdr_product_code)) (text_of (g hdr_product_name))
      (quantity_of (g hdr_quantity)) (quantity_of (g hdr_warehouse_qty))
      (normalize_delivery d (g hdr_delivery_date)) (text_of (g hdr_warehouse))
      (text_of (g hdr_status))" and ins: "sql_insert t vals = Inr t'"
    by (auto simp: upsert_row_def Let_def split: if_splits sum.splits option.splits)
  from ins have ic: "set (map fst vals) \<subseteq> set (tcolumns t)" and b: "list_all bindable (map snd vals)"
    by (auto simp: sql_insert_def split: if_splits)
  from ic kc have "set (''id'' # map fst vals) \<subseteq> set (tcolumns t)" by simp
  then have cols: "set (tcolumns (create_table_if_not_exists None)) \<subseteq> set (tcolumns t)"
    unfolding vals insert_values_columns .
  from b have "bindable (Integer (quantity_of (g hdr_quantity)))"
    "bindable (Integer (quantity_of (g hdr_warehouse_qty)))"
    by (simp_all add: vals insert_values_def)
  with key new cols show ?R by simp
qed

lemma carries_over_refl: "carries_over t t"
  by (simp add: carries_over_def)

lemma carries_over_trans: "carries_over t t' \<Longrightarrow> carries_over t' t'' \<Longrightarrow> carries_over t t''"
  by (simp add: carries_over_def)

lemma carries_over_not_inserted:
  "carries_over t t' \<Longrightarrow> fst (upsert_row d g t) \<noteq> Inserted \<Longrightarrow> fst (upsert_row d g t') \<noteq> Inserted"
  unfolding upsert_row_inserted_iff carries_over_def by blast

lemma has_key_nth:
  "has_key t po sn \<longleftrightarrow>
     (\<exists>i<length (trows t). (trows t ! i) ''po_number'' = Text po \<and>
        (trows t ! i) ''item_serial_number'' = Text sn)"
  unfolding has_key_def list_ex_iff by (metis (no_types, lifting) in_set_conv_nth)

lemma key_not_authoritative:
  "''po_number'' \<notin> set authoritative_columns" "''item_serial_number'' \<notin> set authoritative_columns"
  by (simp_all add: authoritative_columns_def)

lemma upsert_row_carries_over:
  assumes "upsert_row d g t = (out, t', sent)"
  shows "carries_over t t'"
proof -
  have len: "length (trows t) \<le> length (trows t')"
    using upsert_row_length [OF assms] by simp
  have "has_key t' po sn" if "has_key t po sn" for po sn
  proof -
    from that obtain i where i: "i < length (trows t)"
      and m: "(trows t ! i) ''po_number'' = Text po" "(trows t ! i) ''item_serial_number'' = Text sn"
      unfolding has_key_nth by blast
    have "(trows t' ! i) ''po_number'' = Text po" "(trows t' ! i) ''item_serial_number'' = Text sn"
      using upsert_row_frame [OF assms i] m key_not_authoritative by simp_all
    with i len show ?thesis unfolding has_key_nth by (intro exI [of _ i]) simp
  qed
  then show ?thesis
    using upsert_row_columns [OF assms] by (simp add: carries_over_def)
qed

lemma upsert_row_again:
  assumes "upsert_row d g t = (out, t', sent)"
  shows "fst (upsert_row d g t') \<noteq> Inserted"
proof (cases "out = Inserted")
  case False
  with assms have "fst (upsert_row d g t) \<noteq> Inserted" by simp
  from carries_over_not_inserted [OF upsert_row_carries_over [OF assms] this] show ?thesis .
next
  case True
  with assms have ins: "fst (upsert_row d g t) = Inserted" by simp
  then have hyps: "text_of (g hdr_doc_no) \<noteq> []" "text_of (g hdr_serial) \<noteq> []"
     "\<not> has_key t (text_of (g hdr_doc_no)) (text_of (g hdr_serial))"
     "set (tcolumns (create_table_if_not_exists None)) \<subseteq> set (tcolumns t)"
     "bindable (Integer (quantity_of (g hdr_quantity)))"
     "bindable (Integer (quantity_of (g hdr_warehouse_qty)))"
    unfolding upsert_row_inserted_iff by simp_all
  from upsert_row_inserts [OF hyps, of d] assms
  obtain r where "trows t' = trows t @ [r]"
    and "r ''po_number'' = Text (text_of (g hdr_doc_no))"
    and "r ''item_serial_number'' = Text (text_of (g hdr_serial))"
    by auto
  then have "has_key t' (text_of (g hdr_doc_no)) (text_of (g hdr_serial))"
    by (simp add: has_key_def)
  from upsert_row_existing_key [OF this] show ?thesis by simp
qed

lemma upsert_rows_settle:
  "upsert_rows d cols rs (t, n, log) = (t', n', log') \<Longrightarrow>
     carries_over t t' \<and> (\<forall>r\<in>set rs. fst (upsert_row d (row_get cols r) t') \<noteq> Inserted)"
proof (induction rs arbitrary: t n log)
  case Nil
  then show ?case by (simp add: carries_over_refl)
next
  case (Cons r rs)
  obtain out t1 sent where step: "upsert_row d (row_get cols r) t = (out, t1, sent)"
    by (cases "upsert_row d (row_get cols r) t") auto
  with Cons.prems
  have rest: "upsert_rows d cols rs (t1, count out n, log @ sent) = (t', n', log')"
    by simp
  from Cons.IH [OF rest] have c1: "carries_over t1 t'"
    and ih: "\<forall>r\<in>set rs. fst (upsert_row d (row_get cols r) t') \<noteq> Inserted"
    by simp_all
  have "fst (upsert_row d (row_get cols r) t') \<noteq> Inserted"
    using carries_over_not_inserted [OF c1 upsert_row_again [OF step]] .
  moreover have "carries_over t t'"
    using carries_over_trans [OF upsert_row_carries_over [OF step] c1] .
  ultimately show ?case using ih by simp
qed

lemma upsert_rows_settled:
  "upsert_rows d cols rs (t, n, log) = (t', n', log') \<Longrightarrow>
     \<forall>r\<in>set rs. fst (upsert_row d (row_get cols r) t) \<noteq> Inserted \<Longrightarrow>
     length (trows t') = length (trows t)"
proof (induction rs arbitrary: t n log)
  case Nil
  then show ?case by simp
next
  case (Cons r rs)
  obtain out t1 sent where step: "upsert_row d (row_get cols r) t = (out, t1, sent)"
    by (cases "upsert_row d (row_get cols r) t") auto
  with Cons.prems(1)
  have rest: "upsert_rows d cols rs (t1, count out n, log @ sent) = (t', n', log')"
    by simp
  from Cons.prems(2) step have "out \<noteq> Inserted" by simp
  then have len: "length (trows t1) = length (trows t)"
    using upsert_row_length [OF step] by simp
  have "\<forall>r\<in>set rs. fst (upsert_row d (row_get cols r) t1) \<noteq> Inserted"
    using Cons.prems(2) carries_over_not_inserted [OF upsert_row_carries_over [OF step]]
    by simp
  from Cons.IH [OF rest this] len show ?case by simp
qed

lemma fold_add_if_missing_id:
  "set cs \<subseteq> cols \<Longrightarrow> fold (add_if_missing cols) cs t = t"
  by (induction cs arbitrary: t) (auto simp: add_if_missing_def)

lemma check_columns_id:
  "set checked_columns \<subseteq> set (tcolumns t) \<Longrightarrow> check_columns t = t"
  unfolding check_columns_def Let_def by (rule fold_add_if_missing_id)

lemma check_columns_complete:
  "set checked_columns \<subseteq> set (tcolumns (check_columns t))"
  unfolding check_columns_def Let_def fold_add_if_missing_columns by auto

lemma fold_add_if_missing_keep':
  "i < length (trows t) \<Longrightarrow> c \<in> cols \<or> c \<notin> set cs \<Longrightarrow>
     (trows (fold (add_if_missing cols) cs t) ! i) c = (trows t ! i) c"
  by (induction cs arbitrary: t) (auto simp: add_if_missing_def add_column_def)

lemma ensure_db_columns:
  "tcolumns (ensure_db (Some t)) =
     tcolumns t @ filter (\<lambda>c. c \<notin> set (tcolumns t))
       ensured_columns"
  unfolding ensure_db_def Let_def create_table_if_not_exists_def option.case
  by (rule fold_add_if_missing_columns)

lemma ensure_db_length: "length (trows (ensure_db (Some t))) = length (trows t)"
  unfolding ensure_db_def Let_def create_table_if_not_exists_def option.case
  by (rule fold_add_if_missing_length)

lemma ensure_db_keep:
  "i < length (trows t) \<Longrightarrow> c \<in> set (tcolumns t) \<or> c \<notin> set ensured_columns \<Longrightarrow>
     (trows (ensure_db (Some t)) ! i) c = (trows t ! i) c"
  unfolding ensure_db_def Let_def create_table_if_not_exists_def option.case
  by (rule fold_add_if_missing_keep')

lemma api_update_columns:
  "tcolumns (api_update ok p t) = tcolumns t \<or> tcolumns (api_update ok p t) = tcolumns (ensure_db (Some t))"
  by (simp add: api_update_def Let_def)

lemma api_update_length: "length (trows (api_update ok p t)) = length (trows t)"
  by (simp add: api_update_def Let_def ensure_db_length)

lemma api_update_keep:
  assumes "i < length (trows t)" and "c \<notin> set allowed_fields"
    and "c \<in> set (tcolumns t) \<or> c \<notin> set ensured_columns"
  shows "(trows (api_update ok p t) ! i) c = (trows t ! i) c"
proof -
  have "field p \<in> set allowed_fields \<Longrightarrow> field p \<noteq> c" using assms(2) by auto
  then show ?thesis
    using assms(1) ensure_db_keep [OF assms(1,3)]
    by (auto simp: api_update_def Let_def ensure_db_length)
qed

lemma ensure_db_columns_set:
  assumes "set checked_columns \<subseteq> set (tcolumns t)"
  shows "set (tcolumns (ensure_db (Some t))) = insert ''remarks'' (set (tcolumns t))"
proof -
  have "set ensured_columns = insert ''remarks'' (set checked_columns)"
    by (auto simp: ensured_columns_def checked_columns_def)
  with assms show ?thesis
    unfolding ensure_db_columns by auto
qed

lemma api_update_carries_over:
  assumes six: "set checked_columns \<subseteq> set (tcolumns t)"
  shows "carries_over t (api_update ok p t) \<and>
         set checked_columns \<subseteq> set (tcolumns (api_update ok p t))"
proof -
  let ?t' = "api_update ok p t"
  have cols: "set (tcolumns ?t') = set (tcolumns t) \<or>
              set (tcolumns ?t') = insert ''remarks'' (set (tcolumns t))"
  proof (rule disjE [OF api_update_columns [of ok p t]])
    assume "tcolumns ?t' = tcolumns t"
    then show ?thesis by simp
  next
    assume "tcolumns ?t' = tcolumns (ensure_db (Some t))"
    then have "set (tcolumns ?t') = insert ''remarks'' (set (tcolumns t))"
      by (simp only: ensure_db_columns_set [OF six])
    then show ?thesis by (rule disjI2)
  qed
  have nr: "''remarks'' \<notin> set (tcolumns (create_table_if_not_exists None))"
    by (simp add: created_columns)
  have created: "(set (tcolumns (create_table_if_not_exists None)) \<subseteq> set (tcolumns ?t')) =
                 (set (tcolumns (create_table_if_not_exists None)) \<subseteq> set (tcolumns t))"
  proof (rule disjE [OF cols])
    assume "set (tcolumns ?t') = set (tcolumns t)"
    then show ?thesis by (simp only:)
  next
    assume "set (tcolumns ?t') = insert ''remarks'' (set (tcolumns t))"
    then show ?thesis by (simp only: subset_insert [OF nr])
  qed
  have isn: "''item_serial_number'' \<in> set (tcolumns t)"
    using six by (auto simp: checked_columns_def)
  have keys: "has_key ?t' po sn" if "has_key t po sn" for po sn
  proof -
    from that obtain i where i: "i < length (trows t)"
      and m: "(trows t ! i) ''po_number'' = Text po" "(trows t ! i) ''item_serial_number'' = Text sn"
      unfolding has_key_nth by blast
    have "(trows ?t' ! i) ''po_number'' = (trows t ! i) ''po_number''"
      by (rule api_update_keep [OF i]) (simp_all add: allowed_fields_def ensured_columns_def)
    moreover have "(trows ?t' ! i) ''item_serial_number'' = (trows t ! i) ''item_serial_number''"
      using isn by (intro api_update_keep [OF i]) (simp_all add: allowed_fields_def)
    ultimately show ?thesis
      using i m unfolding has_key_nth by (intro exI [of _ i]) (simp add: api_update_length)
  qed
  have "carries_over t ?t'"
    unfolding carries_over_def using created keys by blast
  moreover have "set checked_columns \<subseteq> set (tcolumns ?t')"
  proof (rule disjE [OF cols])
    assume "set (tcolumns ?t') = set (tcolumns t)"
    with six show ?thesis by (simp only:)
  next
    assume "set (tcolumns ?t') = insert ''remarks'' (set (tcolumns t))"
    with six show ?thesis by (simp only: subset_insertI2)
  qed
  ultimately show ?thesis ..
qed

lemma operator_edits_carries_over:
  "set checked_columns \<subseteq> set (tcolumns t) \<Longrightarrow>
   carries_over t (operator_edits es t) \<and>
   set checked_columns \<subseteq> set (tcolumns (operator_edits es t))"
proof (induction es arbitrary: t)
  case Nil
  then show ?case by (simp add: operator_edits_def carries_over_refl)
next
  case (Cons e es)
  obtain ok p where e: "e = (ok, p)" by (cases e)
  from api_update_carries_over [OF Cons.prems, of ok p]
  have c1: "carries_over t (api_update ok p t)"
    and s1: "set checked_columns \<subseteq> set (tcolumns (api_update ok p t))"
    by simp_all
  from Cons.IH [OF s1]
  have c2: "carries_over (api_update ok p t) (operator_edits es (api_update ok p t))"
    and s2: "set checked_columns \<subseteq> set (tcolumns (operator_edits es (api_update ok p t)))"
    by simp_all
  have unfold: "operator_edits (e # es) t = operator_edits es (api_update ok p t)"
    by (simp add: operator_edits_def e)
  show ?case
    unfolding unfold using carries_over_trans [OF c1 c2] s2 by (rule conjI)
qed

text \<open>
  Claim C3. Take the store a first run of the import leaves, let operators edit it through
  the tracking service in any way, and run the import again on the same source. The second
  run leaves as many items as it found, and every item has, in each of the five operator
  columns, the value it had when the second run began.
\<close>

theorem C3_second_run_keeps_items_and_operator_fields:
  assumes first: "store (convert_procuretrack_data to_datetime src db) = Some t1"
  shows "\<exists>t2. store (convert_procuretrack_data to_datetime src (Some (operator_edits es t1))) = Some t2 \<and>
           length (trows t2) = length (trows (operator_edits es t1)) \<and>
           (\<forall>i<length (trows t2). \<forall>c\<in>set operator_columns.
              (trows t2 ! i) c = (trows (operator_edits es t1) ! i) c)"
proof (cases "\<exists>df. src = Workbook df \<and> hdr_serial \<in> set (columns df)")
  case False
  then show ?thesis by (simp add: convert_procuretrack_data_refused)
next
  case True
  then obtain df where src: "src = Workbook df" and ser: "hdr_serial \<in> set (columns df)"
    by blast
  let ?n0 = "\<lparr>inserted_count = 0, updated_count = 0, skipped_count = 0, errors_count = 0\<rparr>"
  let ?e = "operator_edits es t1"
  from convert_procuretrack_data_run [OF ser, of to_datetime db]
  obtain t1' n1 log1 where run1':
    "upsert_rows to_datetime (columns df) (rows df)
       (check_columns (create_table_if_not_exists db), ?n0, []) = (t1', n1, log1)"
    and res1: "convert_procuretrack_data to_datetime (Workbook df) db =
         \<lparr>returned = True, store = Some t1', report = Some n1, statements = log1\<rparr>"
    by blast
  from res1 first src have "t1' = t1" by simp
  with run1' have run1:
    "upsert_rows to_datetime (columns df) (rows df)
       (check_columns (create_table_if_not_exists db), ?n0, []) = (t1, n1, log1)"
    by simp
  have six1: "set checked_columns \<subseteq> set (tcolumns t1)"
    using upsert_rows_frame [OF run1] check_columns_complete by simp
  from upsert_rows_settle [OF run1]
  have settled1: "\<forall>r\<in>set (rows df). fst (upsert_row to_datetime (row_get (columns df) r) t1) \<noteq> Inserted"
    by simp
  from operator_edits_carries_over [OF six1, of es]
  have carry: "carries_over t1 ?e" and six2: "set checked_columns \<subseteq> set (tcolumns ?e)"
    by simp_all
  have settled2: "\<forall>r\<in>set (rows df). fst (upsert_row to_datetime (row_get (columns df) r) ?e) \<noteq> Inserted"
    using settled1 carries_over_not_inserted [OF carry] by blast
  have start2: "check_columns (create_table_if_not_exists (Some ?e)) = ?e"
    using check_columns_id [OF six2] by (simp add: create_table_if_not_exists_def)
  from convert_procuretrack_data_run [OF ser, of to_datetime "Some ?e"]
  obtain t2 n2 log2 where run2:
    "upsert_rows to_datetime (columns df) (rows df) (?e, ?n0, []) = (t2, n2, log2)"
    and res2: "convert_procuretrack_data to_datetime (Workbook df) (Some ?e) =
         \<lparr>returned = True, store = Some t2, report = Some n2, statements = log2\<rparr>"
    unfolding start2 by blast
  have len: "length (trows t2) = length (trows ?e)"
    using upsert_rows_settled [OF run2 settled2] .
  have "(trows t2 ! i) c = (trows ?e ! i) c"
    if "i < length (trows t2)" "c \<in> set operator_columns" for i c
    using upsert_rows_frame [OF run2] that len operator_not_authoritative by simp
  with len res2 src show ?thesis by simp
qed

text \<open>
  The theorem at work: \<open>sheet_po1\<close> is imported into a store that did not exist, an
  operator writes a remark on the item, and the sheet is imported again.
\<close>

lemma remark_edit_result:
  "length (trows (operator_edits remark_edit
      (the (store (convert_procuretrack_data (\<lambda>_. None) (Workbook sheet_po1) None))))) = 1"
  "(trows (operator_edits remark_edit
      (the (store (convert_procuretrack_data (\<lambda>_. None) (Workbook sheet_po1) None)))) ! 0)
     ''remarks'' = Text ''call vendor''"
  by code_simp+

theorem C3_second_run_keeps_items_and_operator_fields_witness:
  "\<exists>t1 t2.
     store (convert_procuretrack_data (\<lambda>_. None) (Workbook sheet_po1) None) = Some t1 \<and>
     store (convert_procuretrack_data (\<lambda>_. None) (Workbook sheet_po1)
              (Some (operator_edits remark_edit t1))) = Some t2 \<and>
     length (trows t2) = 1 \<and> (trows t2 ! 0) ''remarks'' = Text ''call vendor''"
proof -
  let ?r1 = "convert_procuretrack_data (\<lambda>_. None) (Workbook sheet_po1) None"
  have ser: "hdr_serial \<in> set (columns sheet_po1)" by (simp add: sheet_po1_def)
  have first: "store ?r1 = Some (the (store ?r1))"
    using convert_procuretrack_data_run [OF ser, of "\<lambda>_. None" None] by (metis option.sel run_result.select_convs(2))
  have op: "''remarks'' \<in> set operator_columns" by (simp add: operator_columns_def)
  from C3_second_run_keeps_items_and_operator_fields [OF first, of remark_edit]
  obtain t2 where second: "store (convert_procuretrack_data (\<lambda>_. None) (Workbook sheet_po1)
              (Some (operator_edits remark_edit (the (store ?r1))))) = Some t2"
    and len: "length (trows t2) = length (trows (operator_edits remark_edit (the (store ?r1))))"
    and keep: "\<forall>i<length (trows t2). \<forall>c\<in>set operator_columns.
              (trows t2 ! i) c = (trows (operator_edits remark_edit (the (store ?r1))) ! i) c"
    by blast
  from len have l1: "length (trows t2) = 1" by (simp only: remark_edit_result)
  from keep l1 op have "(trows t2 ! 0) ''remarks'' =
      (trows (operator_edits remark_edit (the (store ?r1))) ! 0) ''remarks''"
    by simp
  then have "(trows t2 ! 0) ''remarks'' = Text ''call vendor''"
    by (simp only: remark_edit_result)
  with first second l1 show ?thesis by blast
qed

section \<open>The batch loader: what a load leaves\<close>

lemma write_chunks_inv:
  assumes "0 < k" "i \<le> length df"
    and "i = 0 \<or> db name = Some (take i df)"
    and "concat written = take i df"
    and "\<forall>c\<in>set written. c \<noteq> [] \<and> length c \<le> k"
    and "i \<noteq> 0 \<or> (written = [] \<and> db name = None)"
  shows "case write_chunks i k df name (db, written) of (db', written') \<Rightarrow>
           (df \<noteq> [] \<longrightarrow> db' name = Some df) \<and> (df = [] \<longrightarrow> db' name = None) \<and>
           concat written' = df \<and>
           (\<forall>c\<in>set written'. c \<noteq> [] \<and> length c \<le> k) \<and>
           (\<forall>other. other \<noteq> name \<longrightarrow> db' other = db other)"
  using assms
proof (induction i k df name "(db, written)" arbitrary: db written rule: write_chunks.induct)
  case (1 i k df name db written)
  show ?case
  proof (cases "i < length df")
    case False
    with "1.prems" have i: "i = length df" by simp
    show ?thesis
      using False i "1.prems" by (auto simp: write_chunks.simps)
  next
    case True
    let ?chunk = "take k (drop i df)"
    let ?db = "to_sql name (i = 0) ?chunk db"
    have chunk: "?chunk \<noteq> []" "length ?chunk \<le> k"
      using True "1.prems"(1) by auto
    have tk: "take (i + k) df = take i df @ ?chunk"
      by (simp add: take_add)
    have dbn: "?db name = Some (take (i + k) df)"
      using "1.prems"(3,6) by (auto simp: to_sql_def tk)
    have oth: "\<forall>other. other \<noteq> name \<longrightarrow> ?db other = db other"
      by (simp add: to_sql_def)
    have step: "write_chunks i k df name (db, written) =
        write_chunks (i + k) k df name (?db, written @ [?chunk])"
      using True "1.prems"(1) by (subst write_chunks.simps) (simp add: Let_def)
    show ?thesis
    proof (cases "i + k \<le> length df")
      case le: True
      have "case write_chunks (i + k) k df name (?db, written @ [?chunk]) of (db', written') \<Rightarrow>
           (df \<noteq> [] \<longrightarrow> db' name = Some df) \<and> (df = [] \<longrightarrow> db' name = None) \<and>
           concat written' = df \<and>
           (\<forall>c\<in>set written'. c \<noteq> [] \<and> length c \<le> k) \<and>
           (\<forall>other. other \<noteq> name \<longrightarrow> db' other = ?db other)"
        using True "1.prems" chunk dbn le
        by (intro "1.hyps") (auto simp: tk)
      then show ?thesis unfolding step using oth by (auto split: prod.splits)
    next
      case gt: False
      then have all: "take (i + k) df = df" by simp
      have stop: "write_chunks (i + k) k df name (?db, written @ [?chunk]) = (?db, written @ [?chunk])"
        using gt by (subst write_chunks.simps) simp
      have "concat (written @ [?chunk]) = df"
        using "1.prems"(4) tk all by simp
      then show ?thesis
        unfolding step stop using dbn all oth chunk "1.prems"(5) True by auto
    qed
  qed
qed


lemma insert_data_in_chunks_loads:
  assumes "0 < chunk_size"
  shows "raised (insert_data_in_chunks df conn table_name chunk_size) = None \<and>
     (df \<noteq> [] \<longrightarrow>
        database_after (insert_data_in_chunks df conn table_name chunk_size) table_name = Some df) \<and>
     (df = [] \<longrightarrow>
        database_after (insert_data_in_chunks df conn table_name chunk_size) table_name = None) \<and>
     concat (chunks_written (insert_data_in_chunks df conn table_name chunk_size)) = df \<and>
     (\<forall>c\<in>set (chunks_written (insert_data_in_chunks df conn table_name chunk_size)).
        c \<noteq> [] \<and> length c \<le> chunk_size) \<and>
     (\<forall>other. other \<noteq> table_name \<longrightarrow>
        database_after (insert_data_in_chunks df conn table_name chunk_size) other = conn other)"
proof -
  obtain db' written' where w:
    "write_chunks 0 chunk_size df table_name (conn(table_name := None), []) = (db', written')"
    by (cases "write_chunks 0 chunk_size df table_name (conn(table_name := None), [])") auto
  have r: "insert_data_in_chunks df conn table_name chunk_size =
      \<lparr>raised = None, database_after = db', chunks_written = written'\<rparr>"
    using assms w by (simp add: insert_data_in_chunks_def)
  from write_chunks_inv [of chunk_size 0 df "conn(table_name := None)" table_name "[]"] assms w
  show ?thesis unfolding r by simp
qed

lemma three_chunks:
  assumes "length df = 2500"
  shows "map length (chunks_written (insert_data_in_chunks df conn table_name 1000)) =
           [1000, 1000, 500]"
  using assms
  by (simp add: insert_data_in_chunks_def write_chunks.simps [of 0]
      write_chunks.simps [of 1000] write_chunks.simps [of 2000] write_chunks.simps [of 3000] Let_def)

lemma one_chunk:
  assumes "df \<noteq> []" "length df \<le> chunk_size"
  shows "chunks_written (insert_data_in_chunks df conn table_name chunk_size) = [df]"
proof -
  from assms have k: "0 < chunk_size" by (cases df) auto
  have "write_chunks 0 chunk_size df table_name (conn(table_name := None), []) =
          write_chunks chunk_size chunk_size df table_name
            (to_sql table_name True df (conn(table_name := None)), [df])"
    using assms k by (subst write_chunks.simps) (simp add: Let_def)
  also have "\<dots> = (to_sql table_name True df (conn(table_name := None)), [df])"
    using assms by (subst write_chunks.simps) simp
  finally show ?thesis using k by (simp add: insert_data_in_chunks_def)
qed

text \<open>
  Claim C5, as the code has it. For a frame with at least one row and a chunk size above
  zero (every caller passes 1000), the loader returns without raising, the target table
  holds exactly the rows of the frame in their order, whatever it held before, and the
  other tables are untouched; the chunks written are non-empty, at most a chunk size long
  and together make up the frame; a frame no longer than the chunk size goes in one chunk,
  and one of 2500 rows with chunk size 1000 in chunks of 1000, 1000 and 500. For a frame
  with no row the loop writes nothing: the table has been dropped and is not created
  again, so after the call there is no target table.
\<close>

theorem C5_loader_writes_all_rows:
  assumes "0 < chunk_size"
  shows "raised (insert_data_in_chunks df conn table_name chunk_size) = None \<and>
     (df \<noteq> [] \<longrightarrow>
        database_after (insert_data_in_chunks df conn table_name chunk_size) table_name = Some df) \<and>
     (df = [] \<longrightarrow>
        database_after (insert_data_in_chunks df conn table_name chunk_size) table_name = None) \<and>
     concat (chunks_written (insert_data_in_chunks df conn table_name chunk_size)) = df \<and>
     (\<forall>c\<in>set (chunks_written (insert_data_in_chunks df conn table_name chunk_size)).
        c \<noteq> [] \<and> length c \<le> chunk_size) \<and>
     (\<forall>other. other \<noteq> table_name \<longrightarrow>
        database_after (insert_data_in_chunks df conn table_name chunk_size) other = conn other) \<and>
     (df \<noteq> [] \<and> length df \<le> chunk_size \<longrightarrow>
        chunks_written (insert_data_in_chunks df conn table_name chunk_size) = [df]) \<and>
     (length df = 2500 \<longrightarrow>
        map length (chunks_written (insert_data_in_chunks df conn table_name 1000)) =
          [1000, 1000, 500])"
proof -
  note loads = insert_data_in_chunks_loads [OF assms, of df conn table_name]
  have single: "df \<noteq> [] \<and> length df \<le> chunk_size \<longrightarrow>
      chunks_written (insert_data_in_chunks df conn table_name chunk_size) = [df]"
    by (intro impI, elim conjE) (rule one_chunk)
  have three: "length df = 2500 \<longrightarrow>
      map length (chunks_written (insert_data_in_chunks df conn table_name 1000)) =
        [1000, 1000, 500]"
    by (intro impI) (rule three_chunks)
  from loads single three show ?thesis
    by (elim conjE) (intro conjI; assumption)
qed

theorem C5_loader_writes_all_rows_witness:
  "database_after
     (insert_data_in_chunks [1, 2, 3 :: nat] ((\<lambda>_. None)(''sales_main'' \<mapsto> [7, 8]))
        ''sales_main'' 1000) ''sales_main'' = Some [1, 2, 3] \<and>
   chunks_written
     (insert_data_in_chunks [1, 2, 3 :: nat] ((\<lambda>_. None)(''sales_main'' \<mapsto> [7, 8]))
        ''sales_main'' 1000) = [[1, 2, 3]]"
proof -
  have k: "(0::nat) < 1000" by simp
  from C5_loader_writes_all_rows [OF k, of "[1, 2, 3 :: nat]"
      "(\<lambda>_. None)(''sales_main'' \<mapsto> [7, 8])" "''sales_main''"]
  show ?thesis by simp
qed

text \<open>
  The claim as it is written fails for a frame with no row: the table that was there is
  gone after the call, where the claim has a table of no rows.
\<close>

theorem C5_counterexample_empty_frame:
  "database_after
     (insert_data_in_chunks ([] :: nat list) ((\<lambda>_. None)(''sales_main'' \<mapsto> [7, 8]))
        ''sales_main'' 1000) ''sales_main'' = None"
  by (simp add: insert_data_in_chunks_def write_chunks.simps [of 0])

end
